theory Spec2Isabelle
  imports Main "HOL-Library.Char_ord" "HOL-Library.List_Lexorder"
begin

section \<open>The websocket hub (internal/ws/ws.go)\<close>

text \<open>
  A \<^verbatim>\<open>*websocket.Conn\<close> is a pointer; its identity is modelled by a number.
  A Go \<^verbatim>\<open>error\<close> value is its message.
\<close>

type_synonym conn = nat

datatype error = Error string

text \<open>
  What one goroutine does, in program order: taking and releasing \<^verbatim>\<open>clientsMux\<close>,
  the structural changes of the \<^verbatim>\<open>clients\<close> map, and the calls on a connection
  that reach the network (\<^verbatim>\<open>WriteMessage\<close>, \<^verbatim>\<open>ReadMessage\<close>, \<^verbatim>\<open>Close\<close>).
\<close>

datatype event =
    Lock
  | Unlock
  | MapInsert conn
  | MapDelete conn
  | MapReset
  | NetWrite conn
  | NetRead conn
  | NetClose conn

text \<open>
  The \<^verbatim>\<open>WebSocket\<close> struct together with the transport it talks to.
  \<^item> \<open>clients\<close>: the key set of \<^verbatim>\<open>map[*websocket.Conn]struct{}\<close>;
  \<^item> \<open>inbox\<close>: the messages each peer has been sent successfully, oldest first;
  \<^item> \<open>closed\<close>: the connections on which \<^verbatim>\<open>Close()\<close> has been called;
  \<^item> \<open>failing\<close>: the connections whose peer is gone, so that a write returns an error
    (the transport is gorilla/websocket, outside the repository: which writes fail is
    left arbitrary);
  \<^item> \<open>trace\<close>: the events so far.
\<close>

record 'p hub =
  clients :: "conn set"
  inbox :: "conn \<Rightarrow> 'p list"
  closed :: "conn set"
  failing :: "conn set"
  trace :: "event list"

definition emit :: "event \<Rightarrow> 'p hub \<Rightarrow> 'p hub" where
  "emit e w = w\<lparr>trace := trace w @ [e]\<rparr>"

text \<open>\<^verbatim>\<open>NewWebSocket\<close>: an empty client map. The transport starts with no traffic.\<close>

definition NewWebSocket :: "'p hub" where
  "NewWebSocket = \<lparr>clients = {}, inbox = (\<lambda>_. []), closed = {}, failing = {}, trace = []\<rparr>"

text \<open>
  \<^verbatim>\<open>client.WriteMessage(websocket.TextMessage, update)\<close>: an error on a connection
  that was closed or whose peer is gone, otherwise the peer receives the message.
\<close>

definition WriteMessage :: "conn \<Rightarrow> 'p \<Rightarrow> 'p hub \<Rightarrow> error option \<times> 'p hub" where
  "WriteMessage client update w =
     (let w1 = emit (NetWrite client) w in
      if client \<in> closed w1 \<or> client \<in> failing w1
      then (Some (Error ''write failed''), w1)
      else (None, w1\<lparr>inbox := (inbox w1)(client := inbox w1 client @ [update])\<rparr>))"

text \<open>\<^verbatim>\<open>client.Close()\<close>.\<close>

definition Close :: "conn \<Rightarrow> 'p hub \<Rightarrow> 'p hub" where
  "Close client w = (let w1 = emit (NetClose client) w in w1\<lparr>closed := insert client (closed w1)\<rparr>)"

text \<open>
  \<^verbatim>\<open>for client := range w.clients { client.Close() }\<close>. Go leaves the iteration
  order of a map unspecified: \<open>order\<close> is the order the runtime picked, a list of
  the keys without repetition.
\<close>

fun close_all :: "conn list \<Rightarrow> 'p hub \<Rightarrow> 'p hub" where
  "close_all [] w = w"
| "close_all (client # rest) w = close_all rest (Close client w)"

text \<open>
  \<^verbatim>\<open>
  func (w *WebSocket) Stop() {
      w.clientsMux.Lock()
      defer w.clientsMux.Unlock()
      for client := range w.clients { client.Close() }
      w.clients = make(map[*websocket.Conn]struct{})
  }\<close>
\<close>

definition Stop :: "conn list \<Rightarrow> 'p hub \<Rightarrow> 'p hub" where
  "Stop order w =
     (let w1 = emit Lock w;
          w2 = close_all order w1;
          w3 = emit MapReset (w2\<lparr>clients := {}\<rparr>)
      in emit Unlock w3)"

text \<open>
  The loop of \<^verbatim>\<open>DispatchUpdate\<close>:
  \<^verbatim>\<open>
      for client := range w.clients {
          err := client.WriteMessage(websocket.TextMessage, update)
          if err != nil {
              log.Println(err)
              return
          }
      }\<close>
  The \<^verbatim>\<open>return\<close> leaves the loop and the function at the first failed write.
\<close>

fun dispatch_loop :: "conn list \<Rightarrow> 'p \<Rightarrow> 'p hub \<Rightarrow> 'p hub" where
  "dispatch_loop [] update w = w"
| "dispatch_loop (client # rest) update w =
     (case WriteMessage client update w of
        (Some err, w') \<Rightarrow> w'
      | (None, w') \<Rightarrow> dispatch_loop rest update w')"

text \<open>
  \<^verbatim>\<open>DispatchUpdate\<close>: the lock is taken first and released by the deferred
  \<^verbatim>\<open>Unlock\<close>, on either way out of the loop.
\<close>

definition DispatchUpdate :: "conn list \<Rightarrow> 'p \<Rightarrow> 'p hub \<Rightarrow> 'p hub" where
  "DispatchUpdate order update w = emit Unlock (dispatch_loop order update (emit Lock w))"

text \<open>
  The registration in \<^verbatim>\<open>websocketHandler\<close>, after a successful upgrade:
  \<^verbatim>\<open>
      w.clientsMux.Lock()
      w.clients[conn] = struct{}{}
      w.clientsMux.Unlock()\<close>
\<close>

definition register :: "conn \<Rightarrow> 'p hub \<Rightarrow> 'p hub" where
  "register c w =
     emit Unlock (emit (MapInsert c) ((emit Lock w)\<lparr>clients := insert c (clients w)\<rparr>))"

text \<open>
  The removal in \<^verbatim>\<open>handleConnection\<close>, used after a failed read and again in the
  deferred function:
  \<^verbatim>\<open>
      w.clientsMux.Lock()
      delete(w.clients, conn)
      w.clientsMux.Unlock()\<close>
\<close>

definition unregister :: "conn \<Rightarrow> 'p hub \<Rightarrow> 'p hub" where
  "unregister c w =
     emit Unlock (emit (MapDelete c) ((emit Lock w)\<lparr>clients := clients w - {c}\<rparr>))"

text \<open>
  \<^verbatim>\<open>handleConnection\<close>: the read loop runs while \<^verbatim>\<open>ReadMessage\<close> succeeds;
  \<open>n\<close> is the number of messages the peer sends before the read fails. The failed
  read removes the connection, and the deferred function removes it again and closes
  it, outside the lock.
\<close>

fun read_loop :: "nat \<Rightarrow> conn \<Rightarrow> 'p hub \<Rightarrow> 'p hub" where
  "read_loop 0 c w = unregister c (emit (NetRead c) w)"
| "read_loop (Suc n) c w = read_loop n c (emit (NetRead c) w)"

definition handleConnection :: "nat \<Rightarrow> conn \<Rightarrow> 'p hub \<Rightarrow> 'p hub" where
  "handleConnection n c w = Close c (unregister c (read_loop n c w))"

text \<open>
  \<^verbatim>\<open>websocketHandler\<close>: \<open>upgraded\<close> is the result of \<^verbatim>\<open>upgrader.Upgrade\<close>; on an
  error \<^verbatim>\<open>log.Fatal\<close> ends the process (the result \<open>Inl\<close>).
\<close>

definition websocketHandler :: "error + conn \<Rightarrow> nat \<Rightarrow> 'p hub \<Rightarrow> error + 'p hub" where
  "websocketHandler upgraded n w =
     (case upgraded of
        Inl err \<Rightarrow> Inl err
      | Inr c \<Rightarrow> Inr (handleConnection n c (register c w)))"

subsection \<open>The lock and the network\<close>

text \<open>
  Whether some network call of a trace happens while the lock is held; \<open>held\<close> is
  the state of the lock before the trace.
\<close>

fun io_under_lock :: "bool \<Rightarrow> event list \<Rightarrow> bool" where
  "io_under_lock held [] = False"
| "io_under_lock held (Lock # es) = io_under_lock True es"
| "io_under_lock held (Unlock # es) = io_under_lock False es"
| "io_under_lock held (NetWrite c # es) = (held \<or> io_under_lock held es)"
| "io_under_lock held (NetRead c # es) = (held \<or> io_under_lock held es)"
| "io_under_lock held (NetClose c # es) = (held \<or> io_under_lock held es)"
| "io_under_lock held (e # es) = io_under_lock held es"

text \<open>Whether some change of the client map in a trace happens while the lock is free.\<close>

fun change_outside_lock :: "bool \<Rightarrow> event list \<Rightarrow> bool" where
  "change_outside_lock held [] = False"
| "change_outside_lock held (Lock # es) = change_outside_lock True es"
| "change_outside_lock held (Unlock # es) = change_outside_lock False es"
| "change_outside_lock held (MapInsert c # es) = (change_outside_lock held es \<or> \<not> held)"
| "change_outside_lock held (MapDelete c # es) = (change_outside_lock held es \<or> \<not> held)"
| "change_outside_lock held (MapReset # es) = (change_outside_lock held es \<or> \<not> held)"
| "change_outside_lock held (e # es) = change_outside_lock held es"

text \<open>The events an operation adds to the trace.\<close>

definition events_of :: "('p hub \<Rightarrow> 'p hub) \<Rightarrow> 'p hub \<Rightarrow> event list" where
  "events_of f w = drop (length (trace w)) (trace (f w))"

text \<open>A connection accepts a write when it is neither closed nor broken.\<close>

definition writable :: "'p hub \<Rightarrow> conn \<Rightarrow> bool" where
  "writable w c = (c \<notin> closed w \<and> c \<notin> failing w)"

section \<open>The change feed (internal/db)\<close>

subsection \<open>BSON documents\<close>

text \<open>
  The BSON values the model covers: strings, 32-bit integers, booleans, null, embedded
  documents and arrays. \<^verbatim>\<open>bson.D\<close> is an ordered list of elements. \<^verbatim>\<open>bson.M\<close> is
  a Go map: it is written as the list of its entries in the order a \<^verbatim>\<open>range\<close>
  visits them, with pairwise different keys.
\<close>

datatype bson_value =
    BString string
  | BInt32 int
  | BBoolean bool
  | BNull
  | BDocument "(string \<times> bson_value) list"
  | BArray "bson_value list"

type_synonym bsonD = "(string \<times> bson_value) list"
type_synonym bsonM = "(string \<times> bson_value) list"

text \<open>
  \<^verbatim>\<open>UpdateEvent\<close> (with \<^verbatim>\<open>UpdateDescription.UpdatedFields\<close> flattened into one
  field) and \<^verbatim>\<open>CreateEvent\<close>, and their zero values \<^verbatim>\<open>UpdateEvent{}\<close>,
  \<^verbatim>\<open>CreateEvent{}\<close>: an empty string and a nil map.
\<close>

record UpdateEvent =
  Update_OperationType :: string
  UpdatedFields :: bsonM

record CreateEvent =
  Create_OperationType :: string
  FullDocument :: bsonM

definition UpdateEvent_zero :: UpdateEvent where
  "UpdateEvent_zero = \<lparr>Update_OperationType = [], UpdatedFields = []\<rparr>"

definition CreateEvent_zero :: CreateEvent where
  "CreateEvent_zero = \<lparr>Create_OperationType = [], FullDocument = []\<rparr>"

subsection \<open>The libraries \<^verbatim>\<open>Listen\<close> calls\<close>

text \<open>
  \<^verbatim>\<open>Listen\<close> calls the MongoDB driver, \<^verbatim>\<open>fmt\<close> and \<^verbatim>\<open>encoding/json\<close>, none of
  them part of the repository. They are parameters of the model:
  \<^item> \<open>bson_Marshal\<close>: \<^verbatim>\<open>bson.Marshal(temp)\<close>, the bytes or an error;
  \<^item> \<open>bson_Unmarshal_UpdateEvent\<close>, \<open>bson_Unmarshal_CreateEvent\<close>:
    \<^verbatim>\<open>bson.Unmarshal(bsonBytes, &result)\<close> on a zero struct, as the struct it leaves
    behind and the error it returns;
  \<^item> \<open>fmt_Sprintf_v\<close>: \<^verbatim>\<open>fmt.Sprintf("%v", value)\<close>;
  \<^item> \<open>json_Marshal\<close>: \<^verbatim>\<open>json.Marshal(responseMap)\<close>, the payload or an error.
\<close>

record ('b, 'p) driver =
  bson_Marshal :: "bsonD \<Rightarrow> error + 'b"
  bson_Unmarshal_UpdateEvent :: "'b \<Rightarrow> UpdateEvent \<times> error option"
  bson_Unmarshal_CreateEvent :: "'b \<Rightarrow> CreateEvent \<times> error option"
  fmt_Sprintf_v :: "bson_value \<Rightarrow> string"
  json_Marshal :: "(string \<rightharpoonup> string) \<Rightarrow> error + 'p"

subsection \<open>\<^verbatim>\<open>Listen\<close>\<close>

text \<open>
  The first loop of the body, over the elements of the decoded record:
  \<^verbatim>\<open>
      for _, item := range temp {
          if item.Key == "operationType" {
              if item.Value == "update" {
                  updateResult = UpdateEvent{}
                  bsonBytes, err := bson.Marshal(temp)
                  if err != nil { log.Fatal(err); return err }
                  bson.Unmarshal(bsonBytes, &updateResult)
              } else if item.Value == "insert" {
                  createResult = CreateEvent{}
                  bsonBytes, err := bson.Marshal(temp)
                  if err != nil { log.Fatal(err); return err }
                  bson.Unmarshal(bsonBytes, &createResult)
              }
          }
      }\<close>
  The error \<^verbatim>\<open>bson.Unmarshal\<close> returns is not looked at: only the struct is kept.
  \<open>Inl err\<close> is \<^verbatim>\<open>log.Fatal(err)\<close>, which ends the process.
\<close>

fun scan_items ::
  "('b, 'p) driver \<Rightarrow> bsonD \<Rightarrow> bsonD \<Rightarrow> UpdateEvent \<times> CreateEvent \<Rightarrow>
     error + UpdateEvent \<times> CreateEvent" where
  "scan_items drv [] temp results = Inr results"
| "scan_items drv (item # items) temp (updateResult, createResult) =
     (if fst item = ''operationType'' then
        if snd item = BString ''update'' then
          (case bson_Marshal drv temp of
             Inl err \<Rightarrow> Inl err
           | Inr bsonBytes \<Rightarrow>
               scan_items drv items temp
                 (fst (bson_Unmarshal_UpdateEvent drv bsonBytes), createResult))
        else if snd item = BString ''insert'' then
          (case bson_Marshal drv temp of
             Inl err \<Rightarrow> Inl err
           | Inr bsonBytes \<Rightarrow>
               scan_items drv items temp
                 (updateResult, fst (bson_Unmarshal_CreateEvent drv bsonBytes)))
        else scan_items drv items temp (updateResult, createResult)
      else scan_items drv items temp (updateResult, createResult))"

text \<open>
  The projection, the same two nested loops in both branches:
  \<^verbatim>\<open>
      for key, value := range updateResult.UpdateDescription.UpdatedFields {
          for _, k := range keys {
              if key == k {
                  responseMap[key] = fmt.Sprintf("%v", value)
              }
          }
      }\<close>
\<close>

fun project_key ::
  "(bson_value \<Rightarrow> string) \<Rightarrow> string list \<Rightarrow> string \<Rightarrow> bson_value \<Rightarrow>
     (string \<rightharpoonup> string) \<Rightarrow> (string \<rightharpoonup> string)" where
  "project_key sprintf [] key val responseMap = responseMap"
| "project_key sprintf (k # keys) key val responseMap =
     project_key sprintf keys key val
       (if key = k then responseMap(key \<mapsto> sprintf val) else responseMap)"

fun project ::
  "(bson_value \<Rightarrow> string) \<Rightarrow> string list \<Rightarrow> bsonM \<Rightarrow>
     (string \<rightharpoonup> string) \<Rightarrow> (string \<rightharpoonup> string)" where
  "project sprintf keys [] responseMap = responseMap"
| "project sprintf keys ((key, val) # entries) responseMap =
     project sprintf keys entries (project_key sprintf keys key val responseMap)"

text \<open>
  The end of both branches:
  \<^verbatim>\<open>
      data, err := json.Marshal(responseMap)
      if err != nil { log.Fatal(err); return err }
      ws.DispatchUpdate(data)\<close>
  \<open>ws_DispatchUpdate\<close> is the method of the \<^verbatim>\<open>ws\<close> argument of \<^verbatim>\<open>Listen\<close>, a
  function on the state \<open>s\<close> it works on. The first component of the result is
  \<open>Some err\<close> after \<^verbatim>\<open>log.Fatal(err)\<close> and \<open>None\<close> when the loop goes on.
\<close>

definition marshal_and_dispatch ::
  "('b, 'p) driver \<Rightarrow> ('p \<Rightarrow> 's \<Rightarrow> 's) \<Rightarrow> (string \<rightharpoonup> string) \<Rightarrow> 's \<Rightarrow> error option \<times> 's" where
  "marshal_and_dispatch drv ws_DispatchUpdate responseMap s =
     (case json_Marshal drv responseMap of
        Inl err \<Rightarrow> (Some err, s)
      | Inr data \<Rightarrow> (None, ws_DispatchUpdate data s))"

text \<open>
  The body of the loop for one decoded record \<open>temp\<close>: the scan, then
  \<^verbatim>\<open>
      if updateResult.OperationType == "update" { ... }
      else if createResult.OperationType == "insert" { ... }\<close>
  and nothing for any other record.
\<close>

definition process_record ::
  "('b, 'p) driver \<Rightarrow> ('p \<Rightarrow> 's \<Rightarrow> 's) \<Rightarrow> string list \<Rightarrow> bsonD \<Rightarrow> 's \<Rightarrow> error option \<times> 's" where
  "process_record drv ws_DispatchUpdate keys temp s =
     (case scan_items drv temp temp (UpdateEvent_zero, CreateEvent_zero) of
        Inl err \<Rightarrow> (Some err, s)
      | Inr (updateResult, createResult) \<Rightarrow>
          if Update_OperationType updateResult = ''update'' then
            marshal_and_dispatch drv ws_DispatchUpdate
              (project (fmt_Sprintf_v drv) keys (UpdatedFields updateResult) Map.empty) s
          else if Create_OperationType createResult = ''insert'' then
            marshal_and_dispatch drv ws_DispatchUpdate
              (project (fmt_Sprintf_v drv) keys (FullDocument createResult) Map.empty) s
          else (None, s))"

text \<open>
  \<^verbatim>\<open>for changeStream.Next(ctx) { ... }\<close> followed by \<^verbatim>\<open>return nil\<close>. The change
  stream is the list of the records for which \<^verbatim>\<open>Next\<close> returns true, each as the
  result of \<^verbatim>\<open>changeStream.Decode(&temp)\<close>: an error or the decoded \<^verbatim>\<open>bson.D\<close>. The
  loop ends when the list does (\<^verbatim>\<open>Next\<close> returns false); on a stream that never ends
  \<^verbatim>\<open>Listen\<close> does not return.
\<close>

fun Listen_loop ::
  "('b, 'p) driver \<Rightarrow> ('p \<Rightarrow> 's \<Rightarrow> 's) \<Rightarrow> string list \<Rightarrow> (error + bsonD) list \<Rightarrow> 's \<Rightarrow>
     error option \<times> 's" where
  "Listen_loop drv ws_DispatchUpdate keys [] s = (None, s)"
| "Listen_loop drv ws_DispatchUpdate keys (Inl err # feed) s = (Some err, s)"
| "Listen_loop drv ws_DispatchUpdate keys (Inr temp # feed) s =
     (case process_record drv ws_DispatchUpdate keys temp s of
        (Some err, s') \<Rightarrow> (Some err, s')
      | (None, s') \<Rightarrow> Listen_loop drv ws_DispatchUpdate keys feed s')"

text \<open>
  \<^verbatim>\<open>Listen\<close>: \<open>watch\<close> is the result of \<^verbatim>\<open>coll.Watch\<close>, an error (fatal) or the
  change stream.
\<close>

definition Listen ::
  "('b, 'p) driver \<Rightarrow> ('p \<Rightarrow> 's \<Rightarrow> 's) \<Rightarrow> string list \<Rightarrow> error + (error + bsonD) list \<Rightarrow> 's \<Rightarrow>
     error option \<times> 's" where
  "Listen drv ws_DispatchUpdate keys watch s =
     (case watch of
        Inl err \<Rightarrow> (Some err, s)
      | Inr changeStream \<Rightarrow> Listen_loop drv ws_DispatchUpdate keys changeStream s)"

text \<open>
  The projection in the words of the specification: every configured field name that
  is a key of the source map, with the text of its value.
\<close>

definition projection_spec ::
  "(bson_value \<Rightarrow> string) \<Rightarrow> string list \<Rightarrow> bsonM \<Rightarrow> (string \<rightharpoonup> string)" where
  "projection_spec sprintf keys src =
     (\<lambda>k. if k \<in> set keys then map_option sprintf (map_of src k) else None)"

text \<open>The elements of a record that carry its operation type.\<close>

definition operationType_items :: "bsonD \<Rightarrow> bsonD" where
  "operationType_items temp = filter (\<lambda>item. fst item = ''operationType'') temp"

subsection \<open>An instance of the libraries for the examples\<close>

text \<open>
  The general theorems hold for every driver. The worked examples need a concrete one.
  This instance follows the libraries on the values of \<open>bson_value\<close>:
  \<^item> \<^verbatim>\<open>%v\<close> prints a string as it is, an integer in decimal, a boolean as
    \<^verbatim>\<open>true\<close> or \<^verbatim>\<open>false\<close>, nil as \<^verbatim>\<open><nil>\<close>, a map as \<^verbatim>\<open>map[k:v ...]\<close> with the
    keys in increasing order and a slice as \<^verbatim>\<open>[v ...]\<close>;
  \<^item> decoding into a struct walks the elements of the document in order, stores those
    whose key is a tag of the struct (a null as the zero value, a document into the
    map or struct that is there), skips the others, and stops with an error at the
    first element whose type does not fit its field, keeping what was stored before;
  \<^item> the bytes of \<^verbatim>\<open>bson.Marshal\<close> are identified with the document, and the payload
    of \<^verbatim>\<open>json.Marshal\<close> with the JSON object it encodes.
\<close>

fun show_digits :: "nat \<Rightarrow> nat \<Rightarrow> string" where
  "show_digits 0 n = []"
| "show_digits (Suc fuel) n =
     (if n < 10 then [char_of (48 + n)]
      else show_digits fuel (n div 10) @ [char_of (48 + n mod 10)])"

definition show_int :: "int \<Rightarrow> string" where
  "show_int i =
     (if i < 0 then ''-'' @ show_digits (Suc (nat (- i))) (nat (- i))
      else show_digits (Suc (nat i)) (nat i))"

fun join :: "string \<Rightarrow> string list \<Rightarrow> string" where
  "join sep [] = []"
| "join sep [x] = x"
| "join sep (x # y # ys) = x @ sep @ join sep (y # ys)"

function ref_Sprintf_v :: "bson_value \<Rightarrow> string" where
  "ref_Sprintf_v (BString s) = s"
| "ref_Sprintf_v (BInt32 i) = show_int i"
| "ref_Sprintf_v (BBoolean b) = (if b then ''true'' else ''false'')"
| "ref_Sprintf_v BNull = ''<nil>''"
| "ref_Sprintf_v (BDocument d) =
     ''map['' @ join '' '' (map (\<lambda>(k, v). k @ '':'' @ ref_Sprintf_v v) (sort_key fst d)) @ '']''"
| "ref_Sprintf_v (BArray a) = ''['' @ join '' '' (map ref_Sprintf_v a) @ '']''"
  by pat_completeness auto
termination
proof (relation "measure size")
  show "wf (measure size)" by simp
next
  fix d :: "(string \<times> bson_value) list" and x k v
  assume "x \<in> set (sort_key fst d)" and "(k, v) = x"
  then have "(k, v) \<in> set d" by simp
  then have "size v < Suc (size_list (size_prod (\<lambda>_. 0) size) d)"
    by (induction d) auto
  then show "(v, BDocument d) \<in> measure size" by simp
next
  fix a :: "bson_value list" and x
  assume "x \<in> set a"
  then have "size x < Suc (size_list size a)"
    by (induction a) auto
  then show "(x, BArray a) \<in> measure size" by simp
qed

text \<open>Storing into a Go map: a key that is present keeps its place.\<close>

fun map_store :: "string \<Rightarrow> bson_value \<Rightarrow> bsonM \<Rightarrow> bsonM" where
  "map_store k v [] = [(k, v)]"
| "map_store k v ((k', v') # m) = (if k = k' then (k, v) # m else (k', v') # map_store k v m)"

fun ref_decode_M :: "bsonD \<Rightarrow> bsonM \<Rightarrow> bsonM" where
  "ref_decode_M [] m = m"
| "ref_decode_M ((k, v) # els) m = ref_decode_M els (map_store k v m)"

fun ref_decode_UpdateDescription :: "bsonD \<Rightarrow> bsonM \<Rightarrow> bsonM \<times> error option" where
  "ref_decode_UpdateDescription [] m = (m, None)"
| "ref_decode_UpdateDescription ((k, v) # els) m =
     (if k = ''updatedFields'' then
        (case v of
           BDocument d \<Rightarrow> ref_decode_UpdateDescription els (ref_decode_M d m)
         | BNull \<Rightarrow> ref_decode_UpdateDescription els []
         | _ \<Rightarrow> (m, Some (Error ''cannot decode into a map'')))
      else ref_decode_UpdateDescription els m)"

fun ref_decode_UpdateEvent :: "bsonD \<Rightarrow> UpdateEvent \<Rightarrow> UpdateEvent \<times> error option" where
  "ref_decode_UpdateEvent [] u = (u, None)"
| "ref_decode_UpdateEvent ((k, v) # els) u =
     (if k = ''operationType'' then
        (case v of
           BString s \<Rightarrow> ref_decode_UpdateEvent els (u\<lparr>Update_OperationType := s\<rparr>)
         | BNull \<Rightarrow> ref_decode_UpdateEvent els (u\<lparr>Update_OperationType := []\<rparr>)
         | _ \<Rightarrow> (u, Some (Error ''cannot decode into a string'')))
      else if k = ''updateDescription'' then
        (case v of
           BDocument d \<Rightarrow>
             (case ref_decode_UpdateDescription d (UpdatedFields u) of
                (m, None) \<Rightarrow> ref_decode_UpdateEvent els (u\<lparr>UpdatedFields := m\<rparr>)
              | (m, Some err) \<Rightarrow> (u\<lparr>UpdatedFields := m\<rparr>, Some err))
         | BNull \<Rightarrow> ref_decode_UpdateEvent els (u\<lparr>UpdatedFields := []\<rparr>)
         | _ \<Rightarrow> (u, Some (Error ''cannot decode into a struct'')))
      else ref_decode_UpdateEvent els u)"

fun ref_decode_CreateEvent :: "bsonD \<Rightarrow> CreateEvent \<Rightarrow> CreateEvent \<times> error option" where
  "ref_decode_CreateEvent [] c = (c, None)"
| "ref_decode_CreateEvent ((k, v) # els) c =
     (if k = ''operationType'' then
        (case v of
           BString s \<Rightarrow> ref_decode_CreateEvent els (c\<lparr>Create_OperationType := s\<rparr>)
         | BNull \<Rightarrow> ref_decode_CreateEvent els (c\<lparr>Create_OperationType := []\<rparr>)
         | _ \<Rightarrow> (c, Some (Error ''cannot decode into a string'')))
      else if k = ''fullDocument'' then
        (case v of
           BDocument d \<Rightarrow>
             ref_decode_CreateEvent els (c\<lparr>FullDocument := ref_decode_M d (FullDocument c)\<rparr>)
         | BNull \<Rightarrow> ref_decode_CreateEvent els (c\<lparr>FullDocument := []\<rparr>)
         | _ \<Rightarrow> (c, Some (Error ''cannot decode into a map'')))
      else ref_decode_CreateEvent els c)"

definition ref_driver :: "(bsonD, string \<rightharpoonup> string) driver" where
  "ref_driver =
     \<lparr>bson_Marshal = Inr,
      bson_Unmarshal_UpdateEvent = (\<lambda>b. ref_decode_UpdateEvent b UpdateEvent_zero),
      bson_Unmarshal_CreateEvent = (\<lambda>b. ref_decode_CreateEvent b CreateEvent_zero),
      fmt_Sprintf_v = ref_Sprintf_v,
      json_Marshal = Inr\<rparr>"

subsection \<open>\<^verbatim>\<open>Connect\<close> and \<^verbatim>\<open>Disconnect\<close>\<close>

text \<open>
  The \<^verbatim>\<open>DB\<close> struct, by the names its three handles were made from: the URI of the
  client, the name of the database (the field \<^verbatim>\<open>DB\<close>) and the name of the collection.
\<close>

record DB =
  Client :: string
  Database :: string
  Coll :: string

text \<open>\<^verbatim>\<open>os.Getenv(key)\<close>: the value of the variable, empty when it is not set.\<close>

definition os_Getenv :: "(string \<rightharpoonup> string) \<Rightarrow> string \<Rightarrow> string" where
  "os_Getenv env key = (case env key of None \<Rightarrow> [] | Some v \<Rightarrow> v)"

text \<open>
  \<^verbatim>\<open>Connect\<close>: \<open>connect_err\<close> and \<open>ping_err\<close> are the errors of \<^verbatim>\<open>mongo.Connect\<close>
  and \<^verbatim>\<open>client.Ping\<close>; either one is fatal (\<open>Inl\<close>). Otherwise
  \<^verbatim>\<open>
      return &DB{
          Client: client,
          DB:     client.Database(dbName),
          Coll:   client.Database(dbName).Collection(os.Getenv(collName)),
      }, nil\<close>
\<close>

definition Connect ::
  "(string \<rightharpoonup> string) \<Rightarrow> error option \<Rightarrow> error option \<Rightarrow> string \<Rightarrow> string \<Rightarrow> string \<Rightarrow>
     error + DB" where
  "Connect env connect_err ping_err uriString dbName collName =
     (case connect_err of
        Some err \<Rightarrow> Inl err
      | None \<Rightarrow>
          (case ping_err of
             Some err \<Rightarrow> Inl err
           | None \<Rightarrow>
               Inr \<lparr>Client = uriString, Database = dbName, Coll = os_Getenv env collName\<rparr>))"

text \<open>
  \<^verbatim>\<open>
  func (d *DB) Disconnect() error {
      err := d.Client.Disconnect(context.Background())
      if err != nil { log.Fatal(err); return err }
      return nil
  }\<close>
  \<open>client_err\<close> is the error of \<^verbatim>\<open>Client.Disconnect\<close>; \<open>Inl\<close> is the process
  ended by \<^verbatim>\<open>log.Fatal\<close>.
\<close>

definition Disconnect :: "error option \<Rightarrow> error + unit" where
  "Disconnect client_err = (case client_err of Some err \<Rightarrow> Inl err | None \<Rightarrow> Inr ())"

section \<open>The package (main.go)\<close>

text \<open>
  \<^verbatim>\<open>
  func (s *Socketeer) Stop() error {
      defer func() {
          s.Stop()
          fmt.Println("Socketeer stopped gracefully.")
      }()
      s.DB.Disconnect()
      s.WS.Stop()
      return nil
  }\<close>
  The body disconnects and stops the hub; then the deferred function calls
  \<^verbatim>\<open>Stop\<close> again. \<open>client_err n\<close> is the error of the \<open>n\<close>-th call of
  \<^verbatim>\<open>Client.Disconnect\<close>, and \<open>range_order\<close> the order in which the runtime walks
  the client map of a hub. The result is \<open>None\<close> when the call does not return,
  \<open>Some (Some err, w)\<close> when \<^verbatim>\<open>log.Fatal(err)\<close> ended the process and
  \<open>Some (None, w)\<close> when \<^verbatim>\<open>Stop\<close> returned \<^verbatim>\<open>nil\<close>. Printing is not modelled.
\<close>

partial_function (option) Socketeer_Stop ::
  "(nat \<Rightarrow> error option) \<Rightarrow> ('p hub \<Rightarrow> conn list) \<Rightarrow> nat \<Rightarrow> 'p hub \<Rightarrow>
     (error option \<times> 'p hub) option" where
  "Socketeer_Stop client_err range_order n w =
     (case Disconnect (client_err n) of
        Inl err \<Rightarrow> Some (Some err, w)
      | Inr _ \<Rightarrow>
          Option.bind (Socketeer_Stop client_err range_order (Suc n) (Stop (range_order w) w))
            (\<lambda>(r, w'). Some (r, w')))"

section \<open>Facts about the hub\<close>

lemma emit_fields [simp]:
  "clients (emit e w) = clients w"
  "inbox (emit e w) = inbox w"
  "closed (emit e w) = closed w"
  "failing (emit e w) = failing w"
  "trace (emit e w) = trace w @ [e]"
  by (simp_all add: emit_def)

lemma writable_emit [simp]: "writable (emit e w) = writable w"
  by (simp add: writable_def fun_eq_iff)

lemma writable_inbox_update [simp]: "writable (w\<lparr>inbox := f\<rparr>) = writable w"
  by (simp add: writable_def fun_eq_iff)

lemma WriteMessage_ok:
  "writable w c \<Longrightarrow>
   WriteMessage c u w =
     (None, (emit (NetWrite c) w)\<lparr>inbox := (inbox w)(c := inbox w c @ [u])\<rparr>)"
  by (simp add: WriteMessage_def writable_def Let_def)

lemma WriteMessage_fail:
  "\<not> writable w c \<Longrightarrow>
   WriteMessage c u w = (Some (Error ''write failed''), emit (NetWrite c) w)"
  by (auto simp add: WriteMessage_def writable_def Let_def)

subsection \<open>The dispatch loop\<close>

lemma dispatch_loop_frame [simp]:
  "clients (dispatch_loop order u w) = clients w"
  "closed (dispatch_loop order u w) = closed w"
  "failing (dispatch_loop order u w) = failing w"
  by (induction order arbitrary: w; simp add: WriteMessage_def Let_def)+

text \<open>
  The loop delivers to the connections before the first one that refuses the write,
  once each, and to no other.
\<close>

lemma dispatch_loop_inbox:
  "distinct order \<Longrightarrow>
   inbox (dispatch_loop order u w) c =
     (if c \<in> set (takeWhile (writable w) order) then inbox w c @ [u] else inbox w c)"
proof (induction order arbitrary: w)
  case Nil
  then show ?case by simp
next
  case (Cons a order)
  show ?case
  proof (cases "writable w a")
    case True
    have "a \<notin> set (takeWhile (writable w) order)"
      using Cons.prems by (auto dest: set_takeWhileD)
    with Cons True show ?thesis
      by (simp add: WriteMessage_ok)
  next
    case False
    then show ?thesis by (simp add: WriteMessage_fail)
  qed
qed

lemma dispatch_loop_closed_inbox:
  "c \<in> closed w \<Longrightarrow> inbox (dispatch_loop order u w) c = inbox w c"
proof (induction order arbitrary: w)
  case Nil
  then show ?case by simp
next
  case (Cons a order)
  then show ?case
    by (cases "writable w a") (auto simp: WriteMessage_ok WriteMessage_fail writable_def)
qed

text \<open>The writes the loop attempts: up to and including the first that fails.\<close>

lemma dispatch_loop_trace:
  "trace (dispatch_loop order u w) =
     trace w @
       map NetWrite (takeWhile (writable w) order @ take 1 (dropWhile (writable w) order))"
proof (induction order arbitrary: w)
  case Nil
  then show ?case by simp
next
  case (Cons a order)
  then show ?case
    by (cases "writable w a") (simp_all add: WriteMessage_ok WriteMessage_fail)
qed

lemma DispatchUpdate_fields:
  "clients (DispatchUpdate order u w) = clients w"
  "closed (DispatchUpdate order u w) = closed w"
  "failing (DispatchUpdate order u w) = failing w"
  "trace (DispatchUpdate order u w) =
     trace w @ Lock #
       map NetWrite (takeWhile (writable w) order @ take 1 (dropWhile (writable w) order)) @
       [Unlock]"
  by (simp_all add: DispatchUpdate_def dispatch_loop_trace)

lemma DispatchUpdate_inbox:
  "distinct order \<Longrightarrow>
   inbox (DispatchUpdate order u w) c =
     (if c \<in> set (takeWhile (writable w) order) then inbox w c @ [u] else inbox w c)"
  by (simp add: DispatchUpdate_def dispatch_loop_inbox)

lemma DispatchUpdate_closed_inbox:
  "c \<in> closed w \<Longrightarrow> inbox (DispatchUpdate order u w) c = inbox w c"
  by (simp add: DispatchUpdate_def dispatch_loop_closed_inbox)

text \<open>
  After a failed write nothing more is delivered, whatever the state of the remaining
  connections, and the client map is as before.
\<close>

lemma DispatchUpdate_stops_at_failure:
  assumes "distinct (pre @ c # post)" and "\<forall>x\<in>set pre. writable w x" and "\<not> writable w c"
    and "d \<in> set post"
  shows "inbox (DispatchUpdate (pre @ c # post) u w) d = inbox w d"
proof -
  have "takeWhile (writable w) (pre @ c # post) = pre"
    using assms(2,3) by (simp add: takeWhile_append2)
  moreover have "d \<notin> set pre"
    using assms(1,4) by auto
  ultimately show ?thesis
    using assms(1) by (simp add: DispatchUpdate_inbox)
qed

subsection \<open>Registration, removal and shutdown\<close>

lemma close_all_fields [simp]:
  "clients (close_all order w) = clients w"
  "inbox (close_all order w) = inbox w"
  "failing (close_all order w) = failing w"
  "closed (close_all order w) = closed w \<union> set order"
  "trace (close_all order w) = trace w @ map NetClose order"
  by (induction order arbitrary: w; simp add: Close_def Let_def)+

lemma Stop_fields:
  "clients (Stop order w) = {}"
  "inbox (Stop order w) = inbox w"
  "failing (Stop order w) = failing w"
  "closed (Stop order w) = closed w \<union> set order"
  "trace (Stop order w) = trace w @ Lock # map NetClose order @ [MapReset, Unlock]"
  by (simp_all add: Stop_def Let_def)

lemma register_fields:
  "clients (register c w) = insert c (clients w)"
  "inbox (register c w) = inbox w"
  "closed (register c w) = closed w"
  "failing (register c w) = failing w"
  "trace (register c w) = trace w @ [Lock, MapInsert c, Unlock]"
  by (simp_all add: register_def emit_def)

lemma unregister_fields:
  "clients (unregister c w) = clients w - {c}"
  "inbox (unregister c w) = inbox w"
  "closed (unregister c w) = closed w"
  "failing (unregister c w) = failing w"
  "trace (unregister c w) = trace w @ [Lock, MapDelete c, Unlock]"
  by (simp_all add: unregister_def emit_def)

lemma read_loop_fields:
  "clients (read_loop n c w) = clients w - {c}"
  "inbox (read_loop n c w) = inbox w"
  "closed (read_loop n c w) = closed w"
  "failing (read_loop n c w) = failing w"
  "trace (read_loop n c w) =
     trace w @ replicate (Suc n) (NetRead c) @ [Lock, MapDelete c, Unlock]"
  by (induction n arbitrary: w; simp add: unregister_fields replicate_app_Cons_same)+

lemma handleConnection_fields:
  "clients (handleConnection n c w) = clients w - {c}"
  "inbox (handleConnection n c w) = inbox w"
  "closed (handleConnection n c w) = insert c (closed w)"
  "failing (handleConnection n c w) = failing w"
  "trace (handleConnection n c w) =
     trace w @ replicate (Suc n) (NetRead c) @
       [Lock, MapDelete c, Unlock, Lock, MapDelete c, Unlock, NetClose c]"
  by (auto simp add: handleConnection_def Close_def Let_def unregister_fields read_loop_fields)

text \<open>No operation of the hub reopens a connection.\<close>

lemma closed_mono:
  "closed w \<subseteq> closed (register c w)"
  "closed w \<subseteq> closed (handleConnection n c w)"
  "closed w \<subseteq> closed (DispatchUpdate order u w)"
  "closed w \<subseteq> closed (Stop order w)"
  by (auto simp add: register_fields handleConnection_fields DispatchUpdate_fields Stop_fields)

subsection \<open>Traces\<close>

lemma io_under_lock_reads [simp]:
  "io_under_lock False (replicate k (NetRead c) @ es) = io_under_lock False es"
  by (induction k) simp_all

lemma io_under_lock_writes [simp]:
  "io_under_lock True (map NetWrite cs @ es) = (cs \<noteq> [] \<or> io_under_lock True es)"
  by (induction cs) auto

lemma io_under_lock_closes [simp]:
  "io_under_lock True (map NetClose cs @ es) = (cs \<noteq> [] \<or> io_under_lock True es)"
  by (induction cs) auto

lemma change_outside_lock_reads [simp]:
  "change_outside_lock held (replicate k (NetRead c) @ es) = change_outside_lock held es"
  by (induction k) simp_all

lemma change_outside_lock_writes [simp]:
  "change_outside_lock held (map NetWrite cs @ es) = change_outside_lock held es"
  by (induction cs) simp_all

lemma change_outside_lock_closes [simp]:
  "change_outside_lock held (map NetClose cs @ es) = change_outside_lock held es"
  by (induction cs) simp_all

lemma attempted_nonempty:
  "(takeWhile P xs @ take 1 (dropWhile P xs) = []) = (xs = [])"
  by (cases xs) auto

lemma DispatchUpdate_events:
  "events_of (DispatchUpdate order update) w =
     Lock #
       map NetWrite (takeWhile (writable w) order @ take 1 (dropWhile (writable w) order)) @
       [Unlock]"
  by (simp add: events_of_def DispatchUpdate_fields)

lemma DispatchUpdate_io_under_lock:
  "io_under_lock False (events_of (DispatchUpdate order update) w) = (order \<noteq> [])"
  using attempted_nonempty [of "writable w" order]
  by (simp only: DispatchUpdate_events io_under_lock.simps io_under_lock_writes) simp

lemma Stop_io_under_lock:
  "io_under_lock False (events_of (Stop order) w) = (order \<noteq> [])"
  by (simp add: events_of_def Stop_fields)

lemma register_no_io_under_lock:
  "\<not> io_under_lock False (events_of (register c) w)"
  by (simp add: events_of_def register_fields)

lemma handleConnection_no_io_under_lock:
  "\<not> io_under_lock False (events_of (handleConnection n c) w)"
  by (simp add: events_of_def handleConnection_fields del: replicate_Suc)

lemma changes_under_lock:
  "\<not> change_outside_lock False (events_of (register c) w)"
  "\<not> change_outside_lock False (events_of (handleConnection n c) w)"
  "\<not> change_outside_lock False (events_of (DispatchUpdate order update) w)"
  "\<not> change_outside_lock False (events_of (Stop order) w)"
  by (simp_all add: events_of_def register_fields handleConnection_fields
      DispatchUpdate_fields Stop_fields del: replicate_Suc)

section \<open>Dispatch\<close>




text \<open>
  C1. When the write to one subscriber fails, delivery should go on to every other
  subscriber, and the failed subscriber should leave the registry. \<^verbatim>\<open>DispatchUpdate\<close>
  does neither. Here the registry holds the connections 1 and 2, the peer of 1 is gone,
  and the runtime walks the map in the order 1, 2: the write to 1 fails, the function
  returns, connection 2 (which would have accepted the write) receives nothing, and
  connection 1 is still registered afterwards.
\<close>

theorem DispatchUpdate_failed_write_aborts:
  "(let w = (register 2 (register 1 NewWebSocket))\<lparr>failing := {1}\<rparr>;
        w' = DispatchUpdate [1, 2] ''{}'' w
    in clients w = {1, 2} \<and> \<not> writable w 1 \<and> writable w 2 \<and>
       inbox w' 2 = [] \<and> clients w' = {1, 2})"
  by (auto simp add: Let_def DispatchUpdate_inbox DispatchUpdate_fields register_fields
      writable_def NewWebSocket_def)

section \<open>Shutdown of the hub\<close>

text \<open>
  C8. After \<^verbatim>\<open>Stop\<close> the client map is empty and every connection that was registered
  has been closed. No later dispatch delivers to any of them: in every later state of
  the hub in which the closed connections are still closed, a dispatch in any order
  leaves their inboxes as they are.
\<close>

theorem Stop_clears_registry:
  assumes "set order = clients w"
  shows "clients (Stop order w) = {} \<and> clients w \<subseteq> closed (Stop order w) \<and>
    (\<forall>w' order' update c.
       c \<in> clients w \<and> closed (Stop order w) \<subseteq> closed w' \<longrightarrow>
       inbox (DispatchUpdate order' update w') c = inbox w' c)"
  using assms by (auto simp add: Stop_fields DispatchUpdate_closed_inbox)

text \<open>
  Two subscribers are stopped, then a third one registers and a payload is dispatched:
  the third receives it, the first two do not, even when the dispatch tries them.
\<close>

theorem Stop_clears_registry_witness:
  "(let w = register 2 (register 1 NewWebSocket);
        w' = register 3 (Stop [1, 2] w);
        w'' = DispatchUpdate [1, 3, 2] ''{}'' w'
    in clients (Stop [1, 2] w) = {} \<and> closed (Stop [1, 2] w) = {1, 2} \<and>
       inbox w'' 1 = [] \<and> inbox w'' 2 = [] \<and>
       inbox (DispatchUpdate [3] ''{}'' w') 3 = [''{}''])"
proof -
  define w :: "string hub" where "w = register 2 (register 1 NewWebSocket)"
  define w' where "w' = register 3 (Stop [1, 2] w)"
  have order: "set [1, 2] = clients w"
    by (simp add: w_def register_fields NewWebSocket_def insert_commute)
  have members: "1 \<in> clients w" "2 \<in> clients w"
    by (simp_all add: w_def register_fields)
  have later: "closed (Stop [1, 2] w) \<subseteq> closed w'"
    by (simp add: w'_def register_fields)
  have before: "inbox w' 1 = []" "inbox w' 2 = []" "inbox w' 3 = []"
    by (simp_all add: w'_def w_def register_fields Stop_fields NewWebSocket_def)
  note stop = Stop_clears_registry [OF order]
  from stop have empty: "clients (Stop [1, 2] w) = {}"
    by (rule conjunct1)
  from stop have never:
    "\<forall>w' order' update c.
       c \<in> clients w \<and> closed (Stop [1, 2] w) \<subseteq> closed w' \<longrightarrow>
       inbox (DispatchUpdate order' update w') c = inbox w' c"
    by (rule conjunct2 [THEN conjunct2])
  have first: "inbox (DispatchUpdate [1, 3, 2] ''{}'' w') 1 = []"
    using never members(1) later before(1) by metis
  have second: "inbox (DispatchUpdate [1, 3, 2] ''{}'' w') 2 = []"
    using never members(2) later before(2) by metis
  have closed: "closed (Stop [1, 2] w) = {1, 2}"
    by (simp add: w_def Stop_fields register_fields NewWebSocket_def insert_commute)
  have "writable w' 3"
    by (simp add: writable_def w'_def w_def register_fields Stop_fields NewWebSocket_def)
  then have third: "inbox (DispatchUpdate [3] ''{}'' w') 3 = [''{}'']"
    using before(3) by (simp add: DispatchUpdate_inbox)
  from empty closed first second third
  have "clients (Stop [1, 2] w) = {} \<and> closed (Stop [1, 2] w) = {1, 2} \<and>
       inbox (DispatchUpdate [1, 3, 2] ''{}'' w') 1 = [] \<and>
       inbox (DispatchUpdate [1, 3, 2] ''{}'' w') 2 = [] \<and>
       inbox (DispatchUpdate [3] ''{}'' w') 3 = [''{}'']"
    by (intro conjI)
  then show ?thesis
    unfolding Let_def w'_def w_def .
qed

section \<open>The lock\<close>

text \<open>
  C3 as stated: in every operation on the registry the lock is never held across a
  network call. It fails for the dispatch path: with one subscriber, \<^verbatim>\<open>DispatchUpdate\<close>
  takes the lock, writes to the subscriber, and only then releases the lock.
\<close>

theorem lock_held_across_write_counterexample:
  "events_of (DispatchUpdate [1] ''{}'') (register 1 NewWebSocket) = [Lock, NetWrite 1, Unlock] \<and>
   io_under_lock False (events_of (DispatchUpdate [1] ''{}'') (register 1 NewWebSocket))"
  by (simp add: DispatchUpdate_events register_fields writable_def NewWebSocket_def)

text \<open>
  C3, amended. Every change of the client map happens under the lock. Registration
  (in \<^verbatim>\<open>websocketHandler\<close>) and removal (in \<^verbatim>\<open>handleConnection\<close>) hold the lock for the
  change of the map only, and no network call happens under it. \<^verbatim>\<open>DispatchUpdate\<close> and
  \<^verbatim>\<open>Stop\<close> hold the lock for their whole body: whenever the client map is not empty,
  a \<^verbatim>\<open>WriteMessage\<close>, respectively a \<^verbatim>\<open>Close\<close>, happens while the lock is held.
\<close>

theorem lock_scope:
  "\<not> change_outside_lock False (events_of (register c) w) \<and>
   \<not> change_outside_lock False (events_of (handleConnection n c) w) \<and>
   \<not> change_outside_lock False (events_of (DispatchUpdate order update) w) \<and>
   \<not> change_outside_lock False (events_of (Stop order) w) \<and>
   \<not> io_under_lock False (events_of (register c) w) \<and>
   \<not> io_under_lock False (events_of (handleConnection n c) w) \<and>
   io_under_lock False (events_of (DispatchUpdate order update) w) = (order \<noteq> []) \<and>
   io_under_lock False (events_of (Stop order) w) = (order \<noteq> [])"
  by (simp add: changes_under_lock register_no_io_under_lock handleConnection_no_io_under_lock
      DispatchUpdate_io_under_lock Stop_io_under_lock)

theorem lock_scope_witness:
  "(let w = register 2 (register 1 NewWebSocket)
    in events_of (register 3) w = [Lock, MapInsert 3, Unlock] \<and>
       events_of (handleConnection 1 3) w =
         [NetRead 3, NetRead 3, Lock, MapDelete 3, Unlock, Lock, MapDelete 3, Unlock, NetClose 3] \<and>
       events_of (Stop [2, 1]) w = [Lock, NetClose 2, NetClose 1, MapReset, Unlock] \<and>
       \<not> io_under_lock False (events_of (register 3) w) \<and>
       \<not> io_under_lock False (events_of (handleConnection 1 3) w) \<and>
       io_under_lock False (events_of (DispatchUpdate [2, 1] ''{}'') w) \<and>
       io_under_lock False (events_of (Stop [2, 1]) w))"
  using lock_scope [where c = 3 and n = 1 and order = "[2, 1]" and update = "''{}''"
      and w = "register 2 (register 1 (NewWebSocket :: string hub))"]
  by (simp add: Let_def events_of_def register_fields handleConnection_fields Stop_fields)

section \<open>Facts about the change feed\<close>

subsection \<open>The projection\<close>

lemma project_key_eq:
  "project_key sprintf keys key val m =
     (if key \<in> set keys then m(key \<mapsto> sprintf val) else m)"
  by (induction keys arbitrary: m) auto

text \<open>The loops as one map: of several entries with one key, the last one visited counts.\<close>

lemma project_eq:
  "project sprintf keys entries m =
     (\<lambda>k. if k \<in> set keys
          then (case map_of (rev entries) k of None \<Rightarrow> m k | Some v \<Rightarrow> Some (sprintf v))
          else m k)"
proof (induction entries arbitrary: m)
  case Nil
  then show ?case by (simp add: fun_eq_iff)
next
  case (Cons e entries)
  obtain key val where e: "e = (key, val)" by (cases e)
  show ?case
    unfolding e
    by (simp add: Cons.IH project_key_eq fun_eq_iff map_add_def split: option.splits)
qed

lemma map_of_rev_distinct:
  "distinct (map fst xs) \<Longrightarrow> map_of (rev xs) = map_of xs"
proof (induction xs)
  case Nil
  then show ?case by simp
next
  case (Cons x xs)
  then have "fst x \<notin> dom (map_of xs)"
    by (simp add: dom_map_of_conv_image_fst)
  with Cons show ?case
    by (cases x) (auto simp add: fun_eq_iff map_add_def split: option.splits)
qed

text \<open>On a Go map the loops compute the projection of the specification.\<close>

lemma project_spec:
  "distinct (map fst src) \<Longrightarrow>
   project sprintf keys src Map.empty = projection_spec sprintf keys src"
  by (simp add: project_eq projection_spec_def map_of_rev_distinct fun_eq_iff
      split: option.splits)

lemma dom_projection_spec:
  "dom (projection_spec sprintf keys src) = set keys \<inter> fst ` set src"
proof -
  have "dom (projection_spec sprintf keys src) = set keys \<inter> dom (map_of src)"
    by (auto simp add: projection_spec_def dom_def split: if_splits)
  then show ?thesis by (simp add: dom_map_of_conv_image_fst)
qed

lemma projection_spec_value:
  "distinct (map fst src) \<Longrightarrow> (k, v) \<in> set src \<Longrightarrow> k \<in> set keys \<Longrightarrow>
   projection_spec sprintf keys src k = Some (sprintf v)"
  by (simp add: projection_spec_def)

subsection \<open>The scan of a record\<close>

text \<open>Only the elements with the key \<^verbatim>\<open>operationType\<close> matter to the scan.\<close>

lemma scan_items_filter:
  "scan_items drv items temp r = scan_items drv (operationType_items items) temp r"
proof (induction items arbitrary: r)
  case Nil
  then show ?case by (simp add: operationType_items_def)
next
  case (Cons item items)
  obtain u c where r: "r = (u, c)" by (cases r)
  show ?case
    unfolding r using Cons.IH
    by (simp add: operationType_items_def split: sum.splits)
qed

lemma scan_items_ignored:
  "\<forall>item\<in>set items. fst item = ''operationType'' \<longrightarrow>
      snd item \<noteq> BString ''update'' \<and> snd item \<noteq> BString ''insert'' \<Longrightarrow>
   scan_items drv items temp r = Inr r"
proof (induction items)
  case Nil
  then show ?case by simp
next
  case (Cons item items)
  then show ?case by (cases r) simp
qed

lemma scan_items_update:
  assumes "operationType_items temp = [(''operationType'', BString ''update'')]"
    and "bson_Marshal drv temp = Inr bsonBytes"
  shows "scan_items drv temp temp (u, c) =
           Inr (fst (bson_Unmarshal_UpdateEvent drv bsonBytes), c)"
  by (subst scan_items_filter) (simp add: assms)

lemma scan_items_insert:
  assumes "operationType_items temp = [(''operationType'', BString ''insert'')]"
    and "bson_Marshal drv temp = Inr bsonBytes"
  shows "scan_items drv temp temp (u, c) =
           Inr (u, fst (bson_Unmarshal_CreateEvent drv bsonBytes))"
  by (subst scan_items_filter) (simp add: assms)

subsection \<open>Errors\<close>

text \<open>
  A record that \<^verbatim>\<open>changeStream.Decode\<close> rejects ends the loop with that error, and
  so does a record with an update or insert element that \<^verbatim>\<open>bson.Marshal\<close> rejects.
\<close>

lemma Decode_error_fatal:
  "Listen_loop drv ws_DispatchUpdate keys (Inl err # feed) s = (Some err, s)"
  by simp

lemma Marshal_error_fatal:
  assumes "operationType_items temp = (''operationType'', BString ''update'') # others \<or>
           operationType_items temp = (''operationType'', BString ''insert'') # others"
    and "bson_Marshal drv temp = Inl err"
  shows "Listen_loop drv ws_DispatchUpdate keys (Inr temp # feed) s = (Some err, s)"
proof -
  have "scan_items drv temp temp (UpdateEvent_zero, CreateEvent_zero) = Inl err"
    using assms by (subst scan_items_filter) auto
  then show ?thesis by (simp add: process_record_def)
qed

text \<open>
  The error of \<^verbatim>\<open>bson.Unmarshal\<close> has no effect on what \<^verbatim>\<open>Listen\<close> does with a
  record: two drivers whose decoders leave the same structs behind, with whatever
  errors, are treated the same.
\<close>

lemma Unmarshal_error_discarded:
  "process_record
     (drv\<lparr>bson_Unmarshal_UpdateEvent := \<lambda>b. (fst (bson_Unmarshal_UpdateEvent drv b), e1 b),
          bson_Unmarshal_CreateEvent := \<lambda>b. (fst (bson_Unmarshal_CreateEvent drv b), e2 b)\<rparr>) =
   process_record drv"
proof -
  let ?drv' = "drv\<lparr>bson_Unmarshal_UpdateEvent := \<lambda>b. (fst (bson_Unmarshal_UpdateEvent drv b), e1 b),
          bson_Unmarshal_CreateEvent := \<lambda>b. (fst (bson_Unmarshal_CreateEvent drv b), e2 b)\<rparr>"
  have scan: "scan_items ?drv' items temp r = scan_items drv items temp r" for items temp r
  proof (induction items arbitrary: r)
    case Nil
    then show ?case by simp
  next
    case (Cons item items)
    then show ?case by (cases r) (simp split: sum.splits)
  qed
  have md: "marshal_and_dispatch ?drv' = marshal_and_dispatch drv"
    by (simp add: marshal_and_dispatch_def fun_eq_iff)
  have sp: "fmt_Sprintf_v ?drv' = fmt_Sprintf_v drv"
    by simp
  show ?thesis
    by (intro ext) (simp only: process_record_def scan md sp)
qed

section \<open>Projection of change records\<close>

text \<open>
  C4. For an update record (its operation type is \<^verbatim>\<open>update\<close> and the driver decodes
  it to an \<^verbatim>\<open>UpdateEvent\<close> with that operation type), the payload handed to
  \<^verbatim>\<open>json.Marshal\<close> and then dispatched is the projection of the changed-fields delta:
  its keys are exactly the keys that are both in the delta and in the configured field
  list, and each is mapped to the text of the delta's value. Nothing else of the record
  (the fields the update removed, the document key) reaches the payload.
\<close>

theorem update_projection:
  assumes "operationType_items temp = [(''operationType'', BString ''update'')]"
    and "bson_Marshal drv temp = Inr bsonBytes"
    and "bson_Unmarshal_UpdateEvent drv bsonBytes = (updateResult, unmarshal_err)"
    and "Update_OperationType updateResult = ''update''"
    and "distinct (map fst (UpdatedFields updateResult))"
  shows "process_record drv ws_DispatchUpdate keys temp s =
           marshal_and_dispatch drv ws_DispatchUpdate
             (projection_spec (fmt_Sprintf_v drv) keys (UpdatedFields updateResult)) s \<and>
         dom (projection_spec (fmt_Sprintf_v drv) keys (UpdatedFields updateResult)) =
           set keys \<inter> fst ` set (UpdatedFields updateResult) \<and>
         (\<forall>(k, v)\<in>set (UpdatedFields updateResult). k \<in> set keys \<longrightarrow>
            projection_spec (fmt_Sprintf_v drv) keys (UpdatedFields updateResult) k =
              Some (fmt_Sprintf_v drv v))"
proof -
  have "scan_items drv temp temp (UpdateEvent_zero, CreateEvent_zero) =
      Inr (updateResult, CreateEvent_zero)"
    using scan_items_update [OF assms(1,2)] assms(3) by simp
  then have "process_record drv ws_DispatchUpdate keys temp s =
      marshal_and_dispatch drv ws_DispatchUpdate
        (projection_spec (fmt_Sprintf_v drv) keys (UpdatedFields updateResult)) s"
    using assms(4,5) by (simp add: process_record_def project_spec)
  then show ?thesis
    using assms(5) by (auto simp add: dom_projection_spec projection_spec_value)
qed

text \<open>
  The delta \<^verbatim>\<open>{"email":"new@y.com"}\<close> with the fields \<^verbatim>\<open>["name","email"]\<close>: the
  subscriber is sent \<^verbatim>\<open>{"email":"new@y.com"}\<close>, without \<^verbatim>\<open>name\<close>.
\<close>

theorem update_projection_witness:
  "process_record ref_driver (DispatchUpdate [7]) [''name'', ''email'']
     [(''_id'', BDocument [(''_data'', BString ''8265'')]),
      (''operationType'', BString ''update''),
      (''documentKey'', BDocument [(''_id'', BString ''u1'')]),
      (''updateDescription'',
         BDocument [(''updatedFields'', BDocument [(''email'', BString ''new@y.com'')]),
                    (''removedFields'', BArray [BString ''name''])])]
     (register 7 NewWebSocket) =
   (None, DispatchUpdate [7] [''email'' \<mapsto> ''new@y.com''] (register 7 NewWebSocket))"
proof -
  let ?temp = "[(''_id'', BDocument [(''_data'', BString ''8265'')]),
      (''operationType'', BString ''update''),
      (''documentKey'', BDocument [(''_id'', BString ''u1'')]),
      (''updateDescription'',
         BDocument [(''updatedFields'', BDocument [(''email'', BString ''new@y.com'')]),
                    (''removedFields'', BArray [BString ''name''])])]"
  let ?u = "\<lparr>Update_OperationType = ''update'',
             UpdatedFields = [(''email'', BString ''new@y.com'')]\<rparr>"
  have 1: "operationType_items ?temp = [(''operationType'', BString ''update'')]"
    by (simp add: operationType_items_def)
  have 2: "bson_Marshal ref_driver ?temp = Inr ?temp"
    by (simp add: ref_driver_def)
  have 3: "bson_Unmarshal_UpdateEvent ref_driver ?temp = (?u, None)"
    by (simp add: ref_driver_def UpdateEvent_zero_def)
  have 4: "Update_OperationType ?u = ''update''"
    by simp
  have 5: "distinct (map fst (UpdatedFields ?u))"
    by simp
  have 6: "projection_spec ref_Sprintf_v [''name'', ''email''] [(''email'', BString ''new@y.com'')] =
        [''email'' \<mapsto> ''new@y.com'']"
    by (simp add: projection_spec_def fun_eq_iff)
  show ?thesis
    using update_projection [OF 1 2 3 4 5, of "DispatchUpdate [7]" "[''name'', ''email'']"
        "register 7 NewWebSocket"] 6
    by (simp add: marshal_and_dispatch_def ref_driver_def)
qed

text \<open>
  C5. For an insert record (its operation type is \<^verbatim>\<open>insert\<close> and the driver decodes
  it to a \<^verbatim>\<open>CreateEvent\<close> with that operation type), the payload handed to
  \<^verbatim>\<open>json.Marshal\<close> and then dispatched is the projection of the full document: its
  keys are exactly the keys that are both in the document and in the configured field
  list, and each is mapped to the text of the document's value.
\<close>

theorem insert_projection:
  assumes "operationType_items temp = [(''operationType'', BString ''insert'')]"
    and "bson_Marshal drv temp = Inr bsonBytes"
    and "bson_Unmarshal_CreateEvent drv bsonBytes = (createResult, unmarshal_err)"
    and "Create_OperationType createResult = ''insert''"
    and "distinct (map fst (FullDocument createResult))"
  shows "process_record drv ws_DispatchUpdate keys temp s =
           marshal_and_dispatch drv ws_DispatchUpdate
             (projection_spec (fmt_Sprintf_v drv) keys (FullDocument createResult)) s \<and>
         dom (projection_spec (fmt_Sprintf_v drv) keys (FullDocument createResult)) =
           set keys \<inter> fst ` set (FullDocument createResult) \<and>
         (\<forall>(k, v)\<in>set (FullDocument createResult). k \<in> set keys \<longrightarrow>
            projection_spec (fmt_Sprintf_v drv) keys (FullDocument createResult) k =
              Some (fmt_Sprintf_v drv v))"
proof -
  have "scan_items drv temp temp (UpdateEvent_zero, CreateEvent_zero) =
      Inr (UpdateEvent_zero, createResult)"
    using scan_items_insert [OF assms(1,2)] assms(3) by simp
  then have "process_record drv ws_DispatchUpdate keys temp s =
      marshal_and_dispatch drv ws_DispatchUpdate
        (projection_spec (fmt_Sprintf_v drv) keys (FullDocument createResult)) s"
    using assms(4,5) by (simp add: process_record_def project_spec UpdateEvent_zero_def)
  then show ?thesis
    using assms(5) by (auto simp add: dom_projection_spec projection_spec_value)
qed

text \<open>
  The document \<^verbatim>\<open>{"name":"John Doe","email":"x@y.com","age":30}\<close> with the fields
  \<^verbatim>\<open>["name","email"]\<close>: the subscriber is sent
  \<^verbatim>\<open>{"name":"John Doe","email":"x@y.com"}\<close>, without \<^verbatim>\<open>age\<close>.
\<close>

theorem insert_projection_witness:
  "process_record ref_driver (DispatchUpdate [7]) [''name'', ''email'']
     [(''_id'', BDocument [(''_data'', BString ''8265'')]),
      (''operationType'', BString ''insert''),
      (''fullDocument'',
         BDocument [(''name'', BString ''John Doe''), (''email'', BString ''x@y.com''),
                    (''age'', BInt32 30)])]
     (register 7 NewWebSocket) =
   (None, DispatchUpdate [7] [''name'' \<mapsto> ''John Doe'', ''email'' \<mapsto> ''x@y.com'']
            (register 7 NewWebSocket))"
proof -
  let ?doc = "[(''name'', BString ''John Doe''), (''email'', BString ''x@y.com''),
               (''age'', BInt32 30)]"
  let ?temp = "[(''_id'', BDocument [(''_data'', BString ''8265'')]),
      (''operationType'', BString ''insert''),
      (''fullDocument'', BDocument ?doc)]"
  let ?c = "\<lparr>Create_OperationType = ''insert'', FullDocument = ?doc\<rparr>"
  have 1: "operationType_items ?temp = [(''operationType'', BString ''insert'')]"
    by (simp add: operationType_items_def)
  have 2: "bson_Marshal ref_driver ?temp = Inr ?temp"
    by (simp add: ref_driver_def)
  have 3: "bson_Unmarshal_CreateEvent ref_driver ?temp = (?c, None)"
    by (simp add: ref_driver_def CreateEvent_zero_def)
  have 4: "Create_OperationType ?c = ''insert''"
    by simp
  have 5: "distinct (map fst (FullDocument ?c))"
    by simp
  have 6: "projection_spec ref_Sprintf_v [''name'', ''email''] ?doc =
        [''name'' \<mapsto> ''John Doe'', ''email'' \<mapsto> ''x@y.com'']"
    by (simp add: projection_spec_def fun_eq_iff)
  show ?thesis
    using insert_projection [OF 1 2 3 4 5, of "DispatchUpdate [7]" "[''name'', ''email'']"
        "register 7 NewWebSocket"] 6
    by (simp add: marshal_and_dispatch_def ref_driver_def)
qed

section \<open>Other operation types\<close>

text \<open>
  C6. A record none of whose \<^verbatim>\<open>operationType\<close> elements is \<^verbatim>\<open>update\<close> or
  \<^verbatim>\<open>insert\<close> (a delete, a replace, an invalidate) produces nothing: the state the
  dispatcher works on is unchanged, so no payload reaches any subscriber, no error is
  raised, and the loop goes on with the rest of the feed.
\<close>

theorem other_operation_ignored:
  assumes "\<forall>item\<in>set temp. fst item = ''operationType'' \<longrightarrow>
      snd item \<noteq> BString ''update'' \<and> snd item \<noteq> BString ''insert''"
  shows "process_record drv ws_DispatchUpdate keys temp s = (None, s) \<and>
         Listen_loop drv ws_DispatchUpdate keys (Inr temp # feed) s =
           Listen_loop drv ws_DispatchUpdate keys feed s"
proof -
  have "process_record drv ws_DispatchUpdate keys temp s = (None, s)"
    by (simp add: process_record_def scan_items_ignored [OF assms]
        UpdateEvent_zero_def CreateEvent_zero_def)
  then show ?thesis by simp
qed

text \<open>A delete record with one subscriber connected: nothing is sent, the feed ends normally.\<close>

theorem other_operation_ignored_witness:
  "process_record ref_driver (DispatchUpdate [7]) [''name'', ''email'']
     [(''operationType'', BString ''delete''),
      (''documentKey'', BDocument [(''_id'', BString ''u1'')])]
     (register 7 NewWebSocket) = (None, register 7 NewWebSocket) \<and>
   Listen_loop ref_driver (DispatchUpdate [7]) [''name'', ''email'']
     [Inr [(''operationType'', BString ''delete''),
           (''documentKey'', BDocument [(''_id'', BString ''u1'')])]]
     (register 7 NewWebSocket) = (None, register 7 NewWebSocket)"
  using other_operation_ignored [of
      "[(''operationType'', BString ''delete''),
        (''documentKey'', BDocument [(''_id'', BString ''u1'')])]"
      ref_driver "DispatchUpdate [7]" "[''name'', ''email'']" "register 7 NewWebSocket" "[]"]
  by simp

section \<open>Records that do not decode\<close>

text \<open>
  C7. A record that fails to decode into the shape of an update or insert event should
  halt the feed with a fatal error. \<^verbatim>\<open>Listen\<close> does so when \<^verbatim>\<open>changeStream.Decode\<close>
  or \<^verbatim>\<open>bson.Marshal\<close> fails, but it drops the error of \<^verbatim>\<open>bson.Unmarshal\<close>. Here the
  first record is an update whose \<^verbatim>\<open>updateDescription\<close> is a number: decoding it into
  \<^verbatim>\<open>UpdateEvent\<close> fails, yet \<^verbatim>\<open>Listen\<close> dispatches the empty object for it and goes
  on to the next record.
\<close>

theorem Unmarshal_failure_not_fatal:
  "snd (bson_Unmarshal_UpdateEvent ref_driver
          [(''operationType'', BString ''update''), (''updateDescription'', BInt32 5)]) =
     Some (Error ''cannot decode into a struct'') \<and>
   Listen_loop ref_driver (\<lambda>data sent. sent @ [data]) [''name'', ''email'']
     [Inr [(''operationType'', BString ''update''), (''updateDescription'', BInt32 5)],
      Inr [(''operationType'', BString ''insert''),
           (''fullDocument'', BDocument [(''name'', BString ''A'')])]] [] =
     (None, [Map.empty, [''name'' \<mapsto> ''A'']])"
  by (simp add: ref_driver_def process_record_def marshal_and_dispatch_def
      UpdateEvent_zero_def CreateEvent_zero_def fun_eq_iff)

section \<open>From the feed to the subscriber\<close>

text \<open>
  The feed emits the insert \<^verbatim>\<open>{"title":"A","text":"B","extra":"C"}\<close>, the fields are
  \<^verbatim>\<open>["title","text"]\<close> and one subscriber is connected: it receives
  \<^verbatim>\<open>{"title":"A","text":"B"}\<close> and nothing else, and \<^verbatim>\<open>Listen\<close> returns \<^verbatim>\<open>nil\<close>
  when the feed ends.
\<close>

lemma Listen_end_to_end:
  "(let (r, w) =
      Listen ref_driver (DispatchUpdate [7]) [''title'', ''text'']
        (Inr [Inr [(''operationType'', BString ''insert''),
                   (''fullDocument'',
                      BDocument [(''title'', BString ''A''), (''text'', BString ''B''),
                                 (''extra'', BString ''C'')])]])
        (register 7 NewWebSocket)
    in r = None \<and> inbox w 7 = [[''title'' \<mapsto> ''A'', ''text'' \<mapsto> ''B'']])"
proof -
  have "project ref_Sprintf_v [''title'', ''text'']
          [(''title'', BString ''A''), (''text'', BString ''B''), (''extra'', BString ''C'')]
          Map.empty = [''title'' \<mapsto> ''A'', ''text'' \<mapsto> ''B'']"
    by (simp add: fun_eq_iff)
  then show ?thesis
    by (simp add: Listen_def process_record_def marshal_and_dispatch_def ref_driver_def
        UpdateEvent_zero_def CreateEvent_zero_def DispatchUpdate_inbox register_fields
        writable_def NewWebSocket_def)
qed

section \<open>Connecting\<close>

text \<open>
  C9. The collection of the \<^verbatim>\<open>DB\<close> that \<^verbatim>\<open>Connect\<close> returns is named by
  \<^verbatim>\<open>os.Getenv(collName)\<close>, not by \<^verbatim>\<open>collName\<close>: when no environment variable
  with the name \<^verbatim>\<open>collName\<close> is set, the collection name is the empty string, which
  differs from every \<^verbatim>\<open>collName\<close> that is not empty itself.
\<close>

theorem Connect_collection_from_env:
  assumes "Connect env connect_err ping_err uriString dbName collName = Inr db"
  shows "Coll db = os_Getenv env collName \<and>
         (env collName = None \<longrightarrow> Coll db = [] \<and> (collName \<noteq> [] \<longrightarrow> Coll db \<noteq> collName))"
  using assms
  by (auto simp add: Connect_def os_Getenv_def split: option.splits)

text \<open>
  The example program passes the value of \<^verbatim>\<open>MONGODB_COLLECTION\<close>, here \<^verbatim>\<open>posts\<close>;
  no variable is called \<^verbatim>\<open>posts\<close>, and the collection name comes out empty.
\<close>

theorem Connect_collection_from_env_witness:
  "Connect [''MONGODB_COLLECTION'' \<mapsto> ''posts''] None None
     ''mongodb://localhost:27017'' ''blog'' ''posts'' =
     Inr \<lparr>Client = ''mongodb://localhost:27017'', Database = ''blog'', Coll = []\<rparr> \<and>
   Coll \<lparr>Client = ''mongodb://localhost:27017'', Database = ''blog'', Coll = []\<rparr> \<noteq> ''posts''"
proof -
  have connected:
    "Connect [''MONGODB_COLLECTION'' \<mapsto> ''posts''] None None
       ''mongodb://localhost:27017'' ''blog'' ''posts'' =
     Inr \<lparr>Client = ''mongodb://localhost:27017'', Database = ''blog'', Coll = []\<rparr>"
    by (simp add: Connect_def os_Getenv_def)
  from Connect_collection_from_env [OF connected] connected show ?thesis
    by simp
qed

section \<open>Stopping the package\<close>

lemma Socketeer_Stop_fatal:
  "client_err n = Some err \<Longrightarrow>
   Socketeer_Stop client_err range_order n w = Some (Some err, w)"
  by (subst Socketeer_Stop.simps) (simp add: Disconnect_def)

lemma Socketeer_Stop_step:
  "client_err n = None \<Longrightarrow>
   Socketeer_Stop client_err range_order n w =
     Socketeer_Stop client_err range_order (Suc n) (Stop (range_order w) w)"
  by (subst Socketeer_Stop.simps) (simp add: Disconnect_def split: Option.bind_split)

text \<open>
  Whenever a call gives a result, some \<^verbatim>\<open>Client.Disconnect\<close> from this call on has
  failed and the result is that fatal error.
\<close>

lemma Socketeer_Stop_result:
  assumes returns: "Socketeer_Stop client_err range_order n w = Some y"
  shows "\<exists>k err. n \<le> k \<and> client_err k = Some err \<and> fst y = Some err"
proof (induction rule: Socketeer_Stop.raw_induct [OF _ returns])
  case step: (1 stop client_err range_order n w y)
  show ?case
  proof (cases "client_err n")
    case None
    with step(2) have "stop client_err range_order (Suc n) (Stop (range_order w) w) = Some y"
      by (auto simp add: Disconnect_def split: Option.bind_splits)
    from step(1) [OF this] show ?thesis
      using Suc_leD by blast
  next
    case (Some err)
    with step(2) show ?thesis
      by (auto simp add: Disconnect_def)
  qed
qed

lemma Socketeer_Stop_reaches_failure:
  "client_err (n + d) = Some err \<Longrightarrow> Socketeer_Stop client_err range_order n w \<noteq> None"
proof (induction d arbitrary: n w)
  case 0
  then show ?case by (simp add: Socketeer_Stop_fatal)
next
  case (Suc d)
  show ?case
  proof (cases "client_err n")
    case None
    from Suc.prems have "client_err (Suc n + d) = Some err" by simp
    from Suc.IH [OF this] show ?thesis
      by (simp add: Socketeer_Stop_step [of client_err n, OF None])
  next
    case (Some e)
    then show ?thesis by (simp add: Socketeer_Stop_fatal)
  qed
qed

text \<open>
  A call of \<^verbatim>\<open>Socketeer.Stop\<close> that ends after a first successful disconnect leaves
  the hub stopped: the client map is empty and the former clients are closed.
\<close>

lemma Socketeer_Stop_keeps_stopped:
  assumes returns: "Socketeer_Stop client_err range_order n w = Some y"
  shows "closed w \<subseteq> closed (snd y) \<and> (clients w = {} \<longrightarrow> clients (snd y) = {})"
proof (induction rule: Socketeer_Stop.raw_induct [OF _ returns])
  case step: (1 stop client_err range_order n w y)
  show ?case
  proof (cases "client_err n")
    case None
    with step(2) have "stop client_err range_order (Suc n) (Stop (range_order w) w) = Some y"
      by (auto simp add: Disconnect_def split: Option.bind_splits)
    from step(1) [OF this] show ?thesis
      by (auto simp add: Stop_fields)
  next
    case (Some err)
    with step(2) show ?thesis
      by (auto simp add: Disconnect_def)
  qed
qed

lemma Socketeer_Stop_stops_hub:
  assumes "client_err n = None" and "set (range_order w) = clients w"
    and "Socketeer_Stop client_err range_order n w = Some y"
  shows "clients (snd y) = {} \<and> clients w \<subseteq> closed (snd y)"
proof -
  have "Socketeer_Stop client_err range_order (Suc n) (Stop (range_order w) w) = Some y"
    using assms(1,3) by (simp add: Socketeer_Stop_step [of client_err n])
  from Socketeer_Stop_keeps_stopped [OF this] assms(2) show ?thesis
    by (auto simp add: Stop_fields)
qed

text \<open>
  C10 as stated: \<^verbatim>\<open>Stop\<close> recurses without bound whether or not the database
  disconnect succeeds. It fails when \<^verbatim>\<open>Client.Disconnect\<close> returns an error: then
  \<^verbatim>\<open>log.Fatal\<close> in \<^verbatim>\<open>DB.Disconnect\<close> ends the process in the first call, before the
  hub is stopped (its trace stays empty) and before any deferred call runs.
\<close>

theorem Socketeer_Stop_recursion_counterexample:
  "Socketeer_Stop (\<lambda>n. Some (Error ''server selection error'')) (\<lambda>w. []) 0
     (NewWebSocket :: string hub) =
   Some (Some (Error ''server selection error''), NewWebSocket)"
  by (subst Socketeer_Stop.simps) (simp add: Disconnect_def)

text \<open>
  C10, amended. \<^verbatim>\<open>Socketeer.Stop\<close> never returns normally. It does not return at
  all (each call stops the hub and calls \<^verbatim>\<open>Stop\<close> again from the deferred function)
  exactly when every \<^verbatim>\<open>Client.Disconnect\<close> from this call on succeeds; and a call
  whose \<^verbatim>\<open>Client.Disconnect\<close> fails ends the process at once through \<^verbatim>\<open>log.Fatal\<close>,
  leaving the hub as it was.
\<close>

theorem Socketeer_Stop_never_returns:
  "(\<forall>w'. Socketeer_Stop client_err range_order n w \<noteq> Some (None, w')) \<and>
   (Socketeer_Stop client_err range_order n w = None) = (\<forall>k\<ge>n. client_err k = None) \<and>
   (\<forall>err. client_err n = Some err \<longrightarrow>
      Socketeer_Stop client_err range_order n w = Some (Some err, w))"
proof (intro conjI allI impI)
  fix w'
  show "Socketeer_Stop client_err range_order n w \<noteq> Some (None, w')"
    using Socketeer_Stop_result [of client_err range_order n w "(None, w')"] by auto
next
  show "(Socketeer_Stop client_err range_order n w = None) = (\<forall>k\<ge>n. client_err k = None)"
  proof
    assume none: "Socketeer_Stop client_err range_order n w = None"
    show "\<forall>k\<ge>n. client_err k = None"
    proof (intro allI impI)
      fix k
      assume "n \<le> k"
      then obtain d where k: "k = n + d"
        using le_Suc_ex by blast
      show "client_err k = None"
      proof (cases "client_err k")
        case None
        then show ?thesis .
      next
        case (Some err)
        with k none Socketeer_Stop_reaches_failure [of client_err n d err range_order w]
        show ?thesis by simp
      qed
    qed
  next
    assume all: "\<forall>k\<ge>n. client_err k = None"
    show "Socketeer_Stop client_err range_order n w = None"
    proof (cases "Socketeer_Stop client_err range_order n w")
      case None
      then show ?thesis .
    next
      case (Some y)
      from Socketeer_Stop_result [OF this] all show ?thesis by auto
    qed
  qed
next
  fix err
  assume "client_err n = Some err"
  then show "Socketeer_Stop client_err range_order n w = Some (Some err, w)"
    by (rule Socketeer_Stop_fatal)
qed

text \<open>
  With one subscriber: when every disconnect succeeds \<^verbatim>\<open>Stop\<close> does not return;
  when the second disconnect fails (the client is disconnected already), the process
  ends in the second call, after the hub was stopped once.
\<close>

theorem Socketeer_Stop_never_returns_witness:
  "Socketeer_Stop (\<lambda>n. None) (\<lambda>w. [4]) 0 (register 4 (NewWebSocket :: string hub)) = None \<and>
   Socketeer_Stop (\<lambda>n. if n = 0 then None else Some (Error ''client is disconnected''))
      (\<lambda>w. [4]) 0 (register 4 (NewWebSocket :: string hub)) =
     Some (Some (Error ''client is disconnected''), Stop [4] (register 4 NewWebSocket))"
proof -
  let ?ce = "\<lambda>n::nat. if n = 0 then None else Some (Error ''client is disconnected'')"
  let ?w = "register 4 (NewWebSocket :: string hub)"
  have first: "Socketeer_Stop ?ce (\<lambda>w. [4]) 0 ?w =
      Socketeer_Stop ?ce (\<lambda>w. [4]) (Suc 0) (Stop [4] ?w)"
    by (rule Socketeer_Stop_step) simp
  have second: "Socketeer_Stop ?ce (\<lambda>w. [4]) (Suc 0) (Stop [4] ?w) =
      Some (Some (Error ''client is disconnected''), Stop [4] ?w)"
    using Socketeer_Stop_never_returns [of ?ce "\<lambda>w. [4]" "Suc 0" "Stop [4] ?w"] by simp
  have forever: "Socketeer_Stop (\<lambda>n. None) (\<lambda>w. [4]) 0 ?w = None"
    using Socketeer_Stop_never_returns [of "\<lambda>n. None" "\<lambda>w. [4]" 0 ?w] by simp
  from first second forever show ?thesis by simp
qed

end
